theory Spec2Isabelle
  imports Main "HOL-Library.Word"
begin

unbundle bit_operations_syntax

section \<open>JavaScript values used by the history engine\<close>

text \<open>
  The engine of \<^verbatim>\<open>lib/MyHomeKitTypes.js\<close> computes with JavaScript numbers. Every number it
  handles is an integer (Unix seconds, slot counters) or \<open>NaN\<close>, so a number is modelled as
  an integer or \<open>NaN\<close>; fractions and infinities are left out. The bitwise operators first
  reduce their operand to 32 bits (\<open>NaN\<close> becomes 0) and return a signed 32-bit number.
\<close>

datatype jsnum = Num int | NaN

datatype jsval = JUndefined | JNull | JNumber jsnum | JString string

datatype error = TypeError

definition js_sub :: "jsnum \<Rightarrow> jsnum \<Rightarrow> jsnum" where
  "js_sub a b = (case a of NaN \<Rightarrow> NaN | Num x \<Rightarrow> (case b of NaN \<Rightarrow> NaN | Num y \<Rightarrow> Num (x - y)))"

definition js_add :: "jsnum \<Rightarrow> jsnum \<Rightarrow> jsnum" where
  "js_add a b = (case a of NaN \<Rightarrow> NaN | Num x \<Rightarrow> (case b of NaN \<Rightarrow> NaN | Num y \<Rightarrow> Num (x + y)))"

definition js_mul :: "jsnum \<Rightarrow> jsnum \<Rightarrow> jsnum" where
  "js_mul a b = (case a of NaN \<Rightarrow> NaN | Num x \<Rightarrow> (case b of NaN \<Rightarrow> NaN | Num y \<Rightarrow> Num (x * y)))"

text \<open>The operand conversion of \<open>&\<close>, \<open>|\<close>, \<open><<\<close> and \<open>>>>\<close>.\<close>

definition ToInt32 :: "jsnum \<Rightarrow> 32 word" where
  "ToInt32 v = (case v of NaN \<Rightarrow> 0 | Num i \<Rightarrow> word_of_int i)"

text \<open>The remainder operator \<open>%\<close> truncates: the result has the sign of the dividend.\<close>

definition js_rem :: "int \<Rightarrow> int \<Rightarrow> int" where
  "js_rem a b = sgn a * (\<bar>a\<bar> mod \<bar>b\<bar>)"

section \<open>The binary codec (lines 632 to 667)\<close>

text \<open>
  \<^verbatim>\<open>const epoch = moment('2001-01-01T00:00:00Z').unix()\<close>: the Unix time of the first second
  of 2001, which lies 11323 days after the first second of 1970.
\<close>

definition epoch :: int where
  "epoch = 978307200"

text \<open>
  \<^verbatim>\<open>Buffer.from(text, 'hex')\<close> of the runtime reads two digits per byte and stops at the first
  pair that is not two hexadecimal digits; a single trailing digit is dropped without an
  error. \<^verbatim>\<open>toString('base64')\<close> is the padded encoding of RFC 4648.
\<close>

definition isHexChar :: "char \<Rightarrow> bool" where
  "isHexChar c = (c \<in> set ''0123456789abcdefABCDEF'')"

definition unhex :: "char \<Rightarrow> nat" where
  "unhex c = (case map_of (zip ''0123456789abcdefABCDEF''
       [0, 1, 2, 3, 4, 5, 6, 7, 8, 9, 10, 11, 12, 13, 14, 15, 10, 11, 12, 13, 14, 15]) c of
     None \<Rightarrow> 0 | Some d \<Rightarrow> d)"

fun fromHex :: "string \<Rightarrow> nat list" where
  "fromHex (a # b # cs) =
     (if isHexChar a \<and> isHexChar b then (unhex a * 16 + unhex b) # fromHex cs else [])"
| "fromHex cs = []"

definition base64Alphabet :: string where
  "base64Alphabet = ''ABCDEFGHIJKLMNOPQRSTUVWXYZabcdefghijklmnopqrstuvwxyz0123456789+/''"

definition base64Char :: "nat \<Rightarrow> char" where
  "base64Char n = base64Alphabet ! n"

fun toBase64 :: "nat list \<Rightarrow> string" where
  "toBase64 (a # b # c # bs) =
     [base64Char (a div 4), base64Char (a mod 4 * 16 + b div 16),
      base64Char (b mod 16 * 4 + c div 64), base64Char (c mod 64)] @ toBase64 bs"
| "toBase64 [a, b] =
     [base64Char (a div 4), base64Char (a mod 4 * 16 + b div 16),
      base64Char (b mod 16 * 4), CHR ''='']"
| "toBase64 [a] = [base64Char (a div 4), base64Char (a mod 4 * 16), CHR ''='', CHR ''='']"
| "toBase64 [] = []"

text \<open>
  \<^verbatim>\<open>value.replace(/[^0-9A-F]/ig, '')\<close> keeps the hexadecimal digits of either case. The
  first definition is the return expression of \<open>hexToBase64\<close>, used where the engine
  passes it a string it has just formatted; the second is the function with its guard.
\<close>

definition hexStringToBase64 :: "string \<Rightarrow> string" where
  "hexStringToBase64 value = toBase64 (fromHex (filter isHexChar value))"

definition hexToBase64 :: "jsval \<Rightarrow> error + string" where
  "hexToBase64 value =
     (case value of JString s \<Rightarrow> Inr (hexStringToBase64 s) | _ \<Rightarrow> Inl TypeError)"

text \<open>
  \<^verbatim>\<open>Buffer.from(text, 'base64').toString('hex')\<close>: the text up to its padding is read six
  bits per character, in the alphabet of RFC 4648 or its variant for URLs; characters
  outside the alphabet are passed over; the bytes are written as two lower-case digits
  each.
\<close>

definition hexDigit :: "nat \<Rightarrow> char" where
  "hexDigit d = ''0123456789abcdef'' ! d"

definition unbase64 :: "char \<Rightarrow> nat option" where
  "unbase64 c = map_of (zip (base64Alphabet @ ''-_'') ([0 ..< 64] @ [62, 63])) c"

fun fromSextets :: "nat list \<Rightarrow> nat list" where
  "fromSextets (a # b # c # d # vs) =
     [a * 4 + b div 16, b mod 16 * 16 + c div 4, c mod 4 * 64 + d] @ fromSextets vs"
| "fromSextets [a, b, c] = [a * 4 + b div 16, b mod 16 * 16 + c div 4]"
| "fromSextets [a, b] = [a * 4 + b div 16]"
| "fromSextets vs = []"

definition fromBase64 :: "string \<Rightarrow> nat list" where
  "fromBase64 text = fromSextets (List.map_filter unbase64 (takeWhile (\<lambda>c. c \<noteq> CHR ''='') text))"

definition toHex :: "nat list \<Rightarrow> string" where
  "toHex bytes = concat (map (\<lambda>b. [hexDigit (b div 16), hexDigit (b mod 16)]) bytes)"

definition base64StringToHex :: "string \<Rightarrow> string" where
  "base64StringToHex value = toHex (fromBase64 value)"

definition base64ToHex :: "jsval \<Rightarrow> error + string" where
  "base64ToHex value =
     (case value of JString s \<Rightarrow> Inr (base64StringToHex s) | _ \<Rightarrow> Inl TypeError)"

text \<open>
  \<open>swap16\<close> and \<open>swap32\<close>: \<open><<\<close> is \<open>push_bit\<close> and \<open>>>>\<close> is \<open>drop_bit\<close> on the 32-bit
  operand; the result of \<open>|\<close> is a signed 32-bit number, hence always an integer.
  \<open>swap32Bits\<close> is the expression of \<open>swap32\<close> on the reduced operand.
\<close>

definition swap16 :: "jsnum \<Rightarrow> int" where
  "swap16 value = (let w = ToInt32 value in
     sint (push_bit 8 (w AND 0xFF) OR (drop_bit 8 w AND 0xFF)))"

definition swap32Bits :: "32 word \<Rightarrow> 32 word" where
  "swap32Bits w = push_bit 24 (w AND 0xFF) OR push_bit 8 (w AND 0xFF00) OR
                  (drop_bit 8 w AND 0xFF00) OR (drop_bit 24 w AND 0xFF)"

definition swap32 :: "jsnum \<Rightarrow> int" where
  "swap32 value = sint (swap32Bits (ToInt32 value))"

text \<open>
  \<open>numToHex\<close>: \<^verbatim>\<open>value >>> 0\<close> reads the 32 bits as unsigned; \<open>toString(16)\<close> writes
  them in lower-case digits without leading zeros (at most eight digits); \<open>slice(-length)\<close>
  keeps the last \<open>length\<close> characters, or the whole string when it is shorter. A length of
  0 stands for the omitted argument.
\<close>

definition toString16 :: "int \<Rightarrow> string" where
  "toString16 n =
     (let ds = dropWhile (\<lambda>c. c = CHR ''0'')
                 (map (\<lambda>k. hexDigit (nat (n div 16 ^ k mod 16))) [7, 6, 5, 4, 3, 2, 1, 0])
      in if ds = [] then ''0'' else ds)"

definition numToHex :: "jsnum \<Rightarrow> nat \<Rightarrow> string" where
  "numToHex value len =
     (let s = toString16 (uint (ToInt32 value));
          s = (if length s mod 2 \<noteq> 0 then CHR ''0'' # s else s)
      in if len \<noteq> 0 then (let p = ''0000000000000'' @ s in drop (length p - len) p) else s)"

section \<open>The history store (class History, lines 685 to 903)\<close>

text \<open>
  A slot of \<^verbatim>\<open>this._history\<close> holds the string \<^verbatim>\<open>'noValue'\<close> (slot 0 of a new store), a
  marker \<^verbatim>\<open>{time, setRefTime: 1}\<close>, or a copy of \<^verbatim>\<open>this._entry\<close>, which is a time and the
  fields of the sensor type. The array is a map from indices: a write at any index extends
  it, and a read of an index never written yields \<open>undefined\<close> (\<open>None\<close>).
\<close>

datatype 'p slot = NoValue | RefTimeMarker jsnum | EntryCopy jsnum 'p

text \<open>
  The fields of the delegate. \<open>loading\<close> is \<^verbatim>\<open>this.loading\<close>, the property that
  \<open>_addEntry\<close> tests; \<open>loadingUnderscore\<close> is \<^verbatim>\<open>this._loading\<close>, the property that
  \<open>_load\<close> sets and \<open>_save\<close> tests. \<open>retryTimers\<close> lists the calls of \<open>_addEntry\<close> that
  wait in \<open>setTimeout\<close>. \<open>historyStatus\<close> is \<^verbatim>\<open>this.values.historyStatus\<close>.
  \<^verbatim>\<open>this._memorySize\<close> is set to 4032 by the constructor and never assigned again.
\<close>

record 'p History =
  firstEntry :: int
  lastEntry :: int
  history :: "int \<Rightarrow> 'p slot option"
  usedMemory :: int
  currentEntry :: int
  transfer :: bool
  setTime :: bool
  restarted :: bool
  refTime :: jsnum
  initialTime :: "jsnum option"
  entryTime :: jsnum
  entryFields :: 'p
  historyStatus :: "string option"
  loading :: bool
  loadingUnderscore :: bool
  retryTimers :: "jsnum list"

definition memorySize :: int where
  "memorySize = 4032"

text \<open>
  The constructor of \<open>History\<close> followed by the assignment of \<^verbatim>\<open>this._entry\<close> in the
  constructor of the subclass (time 0 and the given fields). The constructor ends with
  \<open>_load()\<close>, which sets \<^verbatim>\<open>this._loading\<close> and starts reading the file;
  \<^verbatim>\<open>this.loading\<close> is assigned nowhere and stays \<open>undefined\<close>.
\<close>

definition constructed :: "'p \<Rightarrow> 'p History" where
  "constructed flds =
     \<lparr> firstEntry = 0, lastEntry = 0, history = [0 \<mapsto> NoValue], usedMemory = 0,
       currentEntry = 1, transfer = False, setTime = True, restarted = True,
       refTime = Num 0, initialTime = None, entryTime = Num 0, entryFields = flds,
       historyStatus = None, loading = False, loadingUnderscore = True, retryTimers = [] \<rparr>"

text \<open>
  The callback of \<open>readFile\<close> in \<open>_load\<close>: \<open>None\<close> stands for a read error, missing data
  or text that \<open>JSON.parse\<close> rejects, which leave the store as it is.
\<close>

record 'p snapshot =
  snapFirstEntry :: int
  snapLastEntry :: int
  snapUsedMemory :: int
  snapRefTime :: jsnum
  snapInitialTime :: "jsnum option"
  snapHistory :: "int \<Rightarrow> 'p slot option"

definition loadCompleted :: "'p snapshot option \<Rightarrow> 'p History \<Rightarrow> 'p History" where
  "loadCompleted file s =
     (let s = s\<lparr>loadingUnderscore := False\<rparr> in
      case file of
        None \<Rightarrow> s
      | Some jsonFile \<Rightarrow>
          s\<lparr>firstEntry := snapFirstEntry jsonFile, lastEntry := snapLastEntry jsonFile,
            usedMemory := snapUsedMemory jsonFile, refTime := snapRefTime jsonFile,
            initialTime := snapInitialTime jsonFile, history := snapHistory jsonFile\<rparr>)"

subsection \<open>\<open>_addEntry\<close> (lines 731 to 785)\<close>

text \<open>Lines 739 to 755: the ring bookkeeping and the marker written after a restart.\<close>

definition advanceRing :: "'p History \<Rightarrow> 'p History" where
  "advanceRing s =
     (if usedMemory s < memorySize then
        s\<lparr>usedMemory := usedMemory s + 1, firstEntry := 0, lastEntry := usedMemory s + 1\<rparr>
      else
        (let s = s\<lparr>firstEntry := firstEntry s + 1\<rparr>;
             s = s\<lparr>lastEntry := firstEntry s + usedMemory s\<rparr>
         in if restarted s then
              (let s = s\<lparr>history := (history s)(js_rem (lastEntry s) memorySize \<mapsto>
                                         RefTimeMarker (entryTime s))\<rparr>;
                   s = s\<lparr>firstEntry := firstEntry s + 1\<rparr>;
                   s = s\<lparr>lastEntry := firstEntry s + usedMemory s\<rparr>
               in s\<lparr>restarted := False\<rparr>)
            else s))"

text \<open>Lines 757 to 766: the reference time, set while \<^verbatim>\<open>this._refTime === 0\<close>.\<close>

definition setReferenceTime :: "'p History \<Rightarrow> 'p History" where
  "setReferenceTime s =
     (if refTime s = Num 0 then
        (let s = s\<lparr>refTime := js_sub (entryTime s) (Num epoch)\<rparr>;
             s = s\<lparr>history := (history s)(lastEntry s \<mapsto> RefTimeMarker (entryTime s))\<rparr>;
             s = s\<lparr>initialTime := Some (entryTime s)\<rparr>;
             s = s\<lparr>lastEntry := lastEntry s + 1\<rparr>
         in s\<lparr>usedMemory := usedMemory s + 1\<rparr>)
      else s)"

text \<open>Lines 768 and 769: the copy of the entry, at \<^verbatim>\<open>this._lastEntry % this._memorySize\<close>.\<close>

definition storeEntry :: "'p History \<Rightarrow> 'p History" where
  "storeEntry s =
     s\<lparr>history := (history s)(js_rem (lastEntry s) memorySize \<mapsto>
                      EntryCopy (entryTime s) (entryFields s))\<rparr>"

text \<open>Lines 771 to 780: the text of the status, before \<open>hexToBase64\<close>.\<close>

definition statusValue :: "string \<Rightarrow> 'p History \<Rightarrow> string" where
  "statusValue fingerPrint s =
     (let usedMemeoryOffset = (if usedMemory s < memorySize then 1 else 0);
          firstEntryOffset = (if usedMemory s < memorySize then 0 else 1)
      in numToHex (Num (swap32 (js_sub (js_sub (entryTime s) (refTime s)) (Num epoch)))) 8 @
         ''00000000'' @
         numToHex (Num (swap32 (refTime s))) 8 @
         fingerPrint @
         numToHex (Num (swap16 (Num (usedMemory s + usedMemeoryOffset)))) 4 @
         numToHex (Num (swap16 (Num memorySize))) 4 @
         numToHex (Num (swap32 (Num (firstEntry s + firstEntryOffset)))) 8 @
         ''000000000101'')"

text \<open>
  \<open>_addEntry\<close>, with the getter \<^verbatim>\<open>this._fingerPrint\<close> of the subclass as a parameter. The
  guard reads \<^verbatim>\<open>this.loading\<close>; a deferred call is kept in \<open>retryTimers\<close>.
\<close>

definition addEntry :: "string \<Rightarrow> jsnum \<Rightarrow> 'p History \<Rightarrow> 'p History" where
  "addEntry fingerPrint now s =
     (if loading s then s\<lparr>retryTimers := retryTimers s @ [now]\<rparr>
      else
        (let s = s\<lparr>entryTime := now\<rparr>;
             s = advanceRing s;
             s = setReferenceTime s;
             s = storeEntry s
         in s\<lparr>historyStatus := Some (hexStringToBase64 (statusValue fingerPrint s))\<rparr>))"

text \<open>A run of calls, each with the fields the sensor holds at that moment and its time.\<close>

fun addEntries :: "string \<Rightarrow> ('p \<times> jsnum) list \<Rightarrow> 'p History \<Rightarrow> 'p History" where
  "addEntries fingerPrint [] s = s"
| "addEntries fingerPrint ((flds, now) # calls) s =
     addEntries fingerPrint calls (addEntry fingerPrint now (s\<lparr>entryFields := flds\<rparr>))"

subsection \<open>\<open>_onSetHistoryRequest\<close> (lines 796 to 805)\<close>

text \<open>
  \<open>parseInt(text, 16)\<close> on a text of lower-case hexadecimal digits, as \<open>base64ToHex\<close>
  returns it: the value of the leading digits, \<open>NaN\<close> when there is none.
  \<open>substring(4, 12)\<close> is clipped to the length of the text.
\<close>

definition parseInt16 :: "string \<Rightarrow> jsnum" where
  "parseInt16 text =
     (let ds = takeWhile isHexChar text
      in if ds = [] then NaN else Num (foldl (\<lambda>n c. n * 16 + int (unhex c)) 0 ds))"

definition substring :: "nat \<Rightarrow> nat \<Rightarrow> string \<Rightarrow> string" where
  "substring i j text = take (j - i) (drop i text)"

definition requestedEntry :: "string \<Rightarrow> int" where
  "requestedEntry value = swap32 (parseInt16 (substring 4 12 (base64StringToHex value)))"

definition onSetHistoryRequest :: "string \<Rightarrow> 'p History \<Rightarrow> 'p History" where
  "onSetHistoryRequest value s =
     (let entry = requestedEntry value;
          s = (if entry \<noteq> 0 then s\<lparr>currentEntry := entry\<rparr> else s\<lparr>currentEntry := 1\<rparr>)
      in s\<lparr>transfer := True\<rparr>)"

subsection \<open>\<open>_onGetEntries\<close> (lines 807 to 847)\<close>

definition isRefTimeMarker :: "'p slot \<Rightarrow> bool" where
  "isRefTimeMarker e = (case e of RefTimeMarker t \<Rightarrow> True | _ \<Rightarrow> False)"

text \<open>The time of a slot in arithmetic: the property is \<open>undefined\<close> on the string.\<close>

definition slotTime :: "'p slot \<Rightarrow> jsnum" where
  "slotTime e = (case e of NoValue \<Rightarrow> NaN | RefTimeMarker t \<Rightarrow> t | EntryCopy t f \<Rightarrow> t)"

definition refTimeRecord :: "'p History \<Rightarrow> string" where
  "refTimeRecord s =
     '' 15'' @ numToHex (Num (swap32 (Num (currentEntry s)))) 8 @ '' 0100 0000 81'' @
     numToHex (Num (swap32 (refTime s))) 8 @ ''0000 0000 00 0000''"

text \<open>
  The loop of at most 11 rounds, with \<^verbatim>\<open>this._entryStream\<close> of the subclass as a
  parameter. Reading \<open>setRefTime\<close> of a slot never written throws a \<open>TypeError\<close>, with the
  cursor where the earlier rounds left it.
\<close>

fun entriesLoop ::
  "('p History \<Rightarrow> 'p slot \<Rightarrow> string) \<Rightarrow> nat \<Rightarrow> 'p History \<Rightarrow> string \<Rightarrow>
     'p History \<times> (error + string)" where
  "entriesLoop entryStream 0 s dataStream = (s, Inr dataStream)"
| "entriesLoop entryStream (Suc n) s dataStream =
     (let address = js_rem (currentEntry s) memorySize
      in case history s address of
           None \<Rightarrow> (s, Inl TypeError)
         | Some e \<Rightarrow>
             (let (s, dataStream) =
                    (if isRefTimeMarker e \<or> setTime s \<or> currentEntry s = firstEntry s + 1
                     then (s\<lparr>setTime := False\<rparr>, dataStream @ refTimeRecord s)
                     else (s, dataStream @ entryStream s e));
                  s = s\<lparr>currentEntry := currentEntry s + 1\<rparr>
              in if currentEntry s > lastEntry s then (s, Inr dataStream)
                 else entriesLoop entryStream n s dataStream))"

definition onGetEntries ::
  "('p History \<Rightarrow> 'p slot \<Rightarrow> string) \<Rightarrow> 'p History \<Rightarrow> 'p History \<times> (error + string)" where
  "onGetEntries entryStream s =
     (if currentEntry s > lastEntry s \<or> \<not> transfer s then
        (s\<lparr>transfer := False\<rparr>, Inr (hexStringToBase64 ''00''))
      else
        (case entriesLoop entryStream 11 s [] of
           (s, Inl e) \<Rightarrow> (s, Inl e)
         | (s, Inr dataStream) \<Rightarrow> (s, Inr (hexStringToBase64 dataStream))))"

section \<open>The Contact delegate (lines 1004 to 1063)\<close>

text \<open>
  The field of a Contact entry is \<open>status\<close>. The values of the delegates
  \<open>timesOpenedDelegate\<close> and \<open>lastActivationDelegate\<close> stand beside the store.
\<close>

record Contact =
  store :: "jsnum History"
  timesOpened :: jsnum
  lastActivation :: jsnum

definition contactFingerPrint :: string where
  "contactFingerPrint = ''01 0601''"

definition slotStatus :: "jsnum slot \<Rightarrow> jsnum" where
  "slotStatus e = (case e of EntryCopy t status \<Rightarrow> status | _ \<Rightarrow> NaN)"

definition contactEntryStream :: "jsnum History \<Rightarrow> jsnum slot \<Rightarrow> string" where
  "contactEntryStream s entry =
     '' 0b '' @ numToHex (Num (swap32 (Num (currentEntry s)))) 8 @
     numToHex (Num (swap32 (js_sub (js_sub (slotTime entry) (refTime s)) (Num epoch)))) 8 @
     ''01'' @ numToHex (slotStatus entry) 2"

text \<open>
  \<^verbatim>\<open>moment.unix(timestamp)\<close> of the moment library builds a Moment from a Unix timestamp
  (line 824 calls it so): its numeric value is the timestamp times 1000. Called without an
  argument the timestamp is \<open>undefined\<close>, the product is \<open>NaN\<close> and the Moment is invalid,
  with numeric value \<open>NaN\<close>. The current Unix time is \<^verbatim>\<open>moment().unix()\<close>, the default of
  the parameter of \<open>_addEntry\<close>.
\<close>

definition moment_unix :: "jsnum option \<Rightarrow> jsnum" where
  "moment_unix timestamp = (case timestamp of None \<Rightarrow> NaN | Some t \<Rightarrow> js_mul t (Num 1000))"

text \<open>
  The handler of \<open>didSet\<close> of the contact delegate (lines 1038 to 1044): first its body for
  a given value of \<open>now\<close>, then the handler, where \<open>now\<close> is \<^verbatim>\<open>moment.unix()\<close>.
\<close>

definition contactDidSetAt :: "jsnum \<Rightarrow> jsnum \<Rightarrow> Contact \<Rightarrow> Contact" where
  "contactDidSetAt now value c =
     (let c = c\<lparr>timesOpened := js_add (timesOpened c) value\<rparr>;
          c = c\<lparr>lastActivation :=
                  js_sub now (case initialTime (store c) of None \<Rightarrow> NaN | Some t \<Rightarrow> t)\<rparr>;
          c = c\<lparr>store := (store c)\<lparr>entryFields := value\<rparr>\<rparr>
      in c\<lparr>store := addEntry contactFingerPrint now (store c)\<rparr>)"

definition contactDidSet :: "jsnum \<Rightarrow> Contact \<Rightarrow> Contact" where
  "contactDidSet value c = contactDidSetAt (moment_unix None) value c"

text \<open>The Contact delegate as constructed, with the values its three delegates hold.\<close>

definition contactConstructed :: "jsnum \<Rightarrow> jsnum \<Rightarrow> jsnum \<Rightarrow> Contact" where
  "contactConstructed contact opened activation =
     \<lparr> store = constructed contact, timesOpened = opened, lastActivation = activation \<rparr>"

section \<open>Runs of the store\<close>

text \<open>
  The store after the constructor when \<open>_load\<close> has completed without a file: the empty
  store.
\<close>

definition emptyStore :: "'p \<Rightarrow> 'p History" where
  "emptyStore flds = loadCompleted None (constructed flds)"

text \<open>The states of a run of calls: element \<open>i\<close> is the store before call \<open>i\<close>.\<close>

fun trace :: "string \<Rightarrow> ('p \<times> jsnum) list \<Rightarrow> 'p History \<Rightarrow> 'p History list" where
  "trace fingerPrint [] s = [s]"
| "trace fingerPrint ((flds, now) # calls) s =
     s # trace fingerPrint calls (addEntry fingerPrint now (s\<lparr>entryFields := flds\<rparr>))"

text \<open>
  A file as \<open>_save\<close> writes it once the buffer is full: 4032 slots in use, the oldest entry
  at logical index 11.
\<close>

definition fullSnapshot :: "jsnum snapshot" where
  "fullSnapshot =
     \<lparr> snapFirstEntry = 10, snapLastEntry = 4042, snapUsedMemory = 4032,
       snapRefTime = Num 21692800, snapInitialTime = Some (Num 1000000000),
       snapHistory = (\<lambda>i. if 0 \<le> i \<and> i < 4032
                            then Some (EntryCopy (Num 1000000000) (Num 0)) else None) \<rparr>"

text \<open>
  A Contact delegate whose store holds one entry, appended by \<open>_heartbeat\<close> (line 789)
  at the Unix time 1000000000 with the contact at 0, and whose counter of openings is 5.
\<close>

definition contactAfterHeartbeat :: Contact where
  "contactAfterHeartbeat =
     (contactConstructed (Num 0) (Num 5) (Num 0))
       \<lparr>store := addEntry contactFingerPrint (Num 1000000000) (emptyStore (Num 0))\<rparr>"

section \<open>Properties of the codec\<close>

lemma byte_mask: "(0xFF :: 32 word) = mask 8"
  by (simp add: mask_eq_exp_minus_1)

lemma second_byte_mask: "(0xFF00 :: 32 word) = push_bit 8 (mask 8)"
  by (simp add: mask_eq_exp_minus_1 push_bit_eq_mult)

lemma bit_low_to_top:
  "bit (push_bit 24 ((w :: 32 word) AND mask 8)) n \<longleftrightarrow> 24 \<le> n \<and> n < 32 \<and> bit w (n - 24)"
  by (auto simp add: bit_push_bit_iff bit_and_iff bit_mask_iff)

lemma bit_second_to_third:
  "bit (push_bit 8 ((w :: 32 word) AND push_bit 8 (mask 8))) n \<longleftrightarrow>
     16 \<le> n \<and> n < 24 \<and> bit w (n - 8)"
  by (auto simp add: bit_push_bit_iff bit_and_iff bit_mask_iff)

lemma bit_third_to_second:
  "bit (drop_bit 8 (w :: 32 word) AND push_bit 8 (mask 8)) n \<longleftrightarrow>
     8 \<le> n \<and> n < 16 \<and> bit w (n + 8)"
  by (auto simp add: bit_push_bit_iff bit_and_iff bit_mask_iff bit_drop_bit_eq add.commute)

lemma bit_top_to_low:
  "bit (drop_bit 24 (w :: 32 word) AND mask 8) n \<longleftrightarrow> n < 8 \<and> bit w (n + 24)"
  by (auto simp add: bit_and_iff bit_mask_iff bit_drop_bit_eq add.commute)

lemma bit_swap32Bits:
  "bit (swap32Bits w) n \<longleftrightarrow>
     (n < 8 \<and> bit w (n + 24)) \<or> (8 \<le> n \<and> n < 16 \<and> bit w (n + 8)) \<or>
     (16 \<le> n \<and> n < 24 \<and> bit w (n - 8)) \<or> (24 \<le> n \<and> n < 32 \<and> bit w (n - 24))"
  unfolding swap32Bits_def byte_mask second_byte_mask bit_or_iff
    bit_low_to_top bit_second_to_third bit_third_to_second bit_top_to_low
  by blast

lemma swap32Bits_involution: "swap32Bits (swap32Bits w) = w"
proof (rule bit_word_eqI)
  fix n
  assume "n < LENGTH(32)"
  then have n: "n < 32"
    by simp
  consider "n < 8" | "8 \<le> n" "n < 16" | "16 \<le> n" "n < 24" | "24 \<le> n"
    by linarith
  then show "bit (swap32Bits (swap32Bits w)) n = bit w n"
    using n by cases (auto simp add: bit_swap32Bits)
qed

lemma swap32_twice: "swap32 (Num (swap32 (Num v))) = sint (word_of_int v :: 32 word)"
  by (simp add: swap32_def ToInt32_def swap32Bits_involution)

text \<open>
  C9 (as amended). Applying \<open>swap32\<close> twice to an integer yields that integer reduced to
  a signed 32-bit number; so it yields the integer itself exactly on the signed range from
  \<open>-2^31\<close> up to \<open>2^31 - 1\<close>.
\<close>

theorem swap32_involution_int32:
  "swap32 (Num (swap32 (Num v))) = sint (word_of_int v :: 32 word) \<and>
   (- (2 ^ 31) \<le> v \<and> v < 2 ^ 31 \<longrightarrow> swap32 (Num (swap32 (Num v))) = v)"
  by (simp add: swap32_twice sint_sbintrunc' signed_take_bit_int_eq_self)

theorem swap32_involution_int32_witness:
  "- (2 ^ 31) \<le> (-19088744 :: int) \<and> (-19088744 :: int) < 2 ^ 31 \<and>
   swap32 (Num (swap32 (Num (-19088744)))) = -19088744"
  using swap32_involution_int32 [of "-19088744"] by simp

text \<open>
  C9 (as stated) fails on the unsigned 32-bit value \<open>2^32 - 1\<close>: the first application
  returns \<open>-1\<close>, and so does the second.
\<close>

theorem swap32_involution_counterexample:
  "swap32 (Num (swap32 (Num 4294967295))) \<noteq> 4294967295"
  by (simp add: swap32_twice)

lemma fromHex_odd_length:
  "odd (length cs) \<Longrightarrow> fromHex cs = fromHex (butlast cs)"
proof (induction cs rule: fromHex.induct)
  case (1 a b cs)
  then have "cs \<noteq> []"
    by auto
  with 1 show ?case
    by simp
qed simp_all

text \<open>
  C8 (as amended). \<open>hexToBase64\<close> fails, with a \<open>TypeError\<close>, exactly when its argument is
  not a string. On a string it returns the encoding of the stripped digits, and a remainder
  of odd length is read without its last digit.
\<close>

theorem hexToBase64_fails_only_on_non_strings:
  "((\<exists>e. hexToBase64 v = Inl e) \<longleftrightarrow> (\<forall>s. v \<noteq> JString s)) \<and>
   hexToBase64 (JString s) = Inr (toBase64 (fromHex (filter isHexChar s))) \<and>
   (odd (length (filter isHexChar s)) \<longrightarrow>
      hexToBase64 (JString s) = Inr (toBase64 (fromHex (butlast (filter isHexChar s)))))"
  by (cases v) (simp_all add: hexToBase64_def hexStringToBase64_def fromHex_odd_length)

theorem hexToBase64_fails_only_on_non_strings_witness:
  "odd (length (filter isHexChar ''a-bc'')) \<and>
   hexToBase64 (JString ''a-bc'') = Inr (toBase64 (fromHex (butlast (filter isHexChar ''a-bc''))))"
  using hexToBase64_fails_only_on_non_strings [of JNull "''a-bc''"]
  by (simp add: isHexChar_def)

text \<open>
  C8 (as stated) fails on the text \<open>abc\<close>, whose three digits are an odd number: the
  result is the encoding of the byte \<open>ab\<close>, not an error.
\<close>

theorem hexToBase64_odd_length_counterexample:
  "odd (length (filter isHexChar ''abc'')) \<and> hexToBase64 (JString ''abc'') = Inr ''qw==''"
  by code_simp

section \<open>Properties of the transfer\<close>

lemma sentinel: "hexStringToBase64 ''00'' = ''AA=='' \<and> toBase64 [0] = ''AA==''"
  by code_simp

text \<open>
  C10. A read of the entries while no transfer is active, because \<open>_transfer\<close> is false
  (as in a new store, before any request, and after the sentinel was sent) or because the
  cursor has passed \<open>_lastEntry\<close> (the session is exhausted), returns \<open>AA==\<close>, the
  encoding of the single byte 00, without an error; it changes nothing else and leaves the
  transfer inactive.
\<close>

theorem onGetEntries_without_transfer:
  "\<not> transfer s \<or> lastEntry s < currentEntry s \<Longrightarrow>
     onGetEntries entryStream s = (s\<lparr>transfer := False\<rparr>, Inr ''AA=='') \<and>
     ''AA=='' = toBase64 [0] \<and> \<not> transfer (fst (onGetEntries entryStream s))"
  by (auto simp add: onGetEntries_def sentinel simp del: toBase64.simps)

theorem onGetEntries_without_transfer_witness:
  "\<not> transfer (constructed (Num 0)) \<and>
   snd (onGetEntries contactEntryStream (constructed (Num 0))) = Inr ''AA=='' \<and>
   \<not> transfer (fst (onGetEntries contactEntryStream (constructed (Num 0))))"
  using onGetEntries_without_transfer [of "constructed (Num 0)" contactEntryStream]
  by (simp add: constructed_def)

section \<open>Properties of the store\<close>

lemmas addEntry_defs = addEntry_def advanceRing_def setReferenceTime_def storeEntry_def Let_def

lemma js_rem_cong: "memorySize dvd js_rem x memorySize - x"
proof -
  have pos: "memorySize dvd y mod memorySize - y" for y :: int
    using dvd_minus_mod [of memorySize y] by (simp add: dvd_diff_commute)
  consider "x < 0" | "x = 0" | "0 < x"
    by linarith
  then show ?thesis
  proof cases
    case 1
    have eq: "js_rem x memorySize - x = - x - (- x) mod memorySize"
      using 1 by (simp add: js_rem_def memorySize_def)
    show ?thesis
      unfolding eq by (rule dvd_minus_mod)
  next
    case 2
    then show ?thesis
      by (simp add: js_rem_def)
  next
    case 3
    then show ?thesis
      using pos [of x] by (simp add: js_rem_def memorySize_def)
  qed
qed

lemma js_rem_apart:
  assumes "\<not> memorySize dvd x - y"
  shows "js_rem x memorySize \<noteq> js_rem y memorySize" and "js_rem x memorySize \<noteq> y"
    and "x \<noteq> js_rem y memorySize"
proof -
  have x: "memorySize dvd js_rem x memorySize - x" and y: "memorySize dvd js_rem y memorySize - y"
    by (rule js_rem_cong)+
  show "js_rem x memorySize \<noteq> js_rem y memorySize"
  proof
    assume "js_rem x memorySize = js_rem y memorySize"
    with x y have "memorySize dvd (js_rem y memorySize - y) - (js_rem y memorySize - x)"
      using dvd_diff by metis
    with assms show False
      by simp
  qed
  show "js_rem x memorySize \<noteq> y"
  proof
    assume "js_rem x memorySize = y"
    with x have "memorySize dvd y - x"
      by simp
    with assms show False
      by (simp add: dvd_diff_commute)
  qed
  show "x \<noteq> js_rem y memorySize"
  proof
    assume "x = js_rem y memorySize"
    with y assms show False
      by simp
  qed
qed

lemma js_rem_nonneg: "0 \<le> x \<Longrightarrow> js_rem x memorySize = x mod 4032"
  by (cases "x = 0") (simp_all add: js_rem_def memorySize_def)

lemma js_sub_zero: "js_sub t (Num e) = Num 0 \<longleftrightarrow> t = Num e"
  by (cases t) (simp_all add: js_sub_def)

lemma firstEntry_addEntry:
  "\<not> loading s \<Longrightarrow> firstEntry (addEntry fp now s) =
     (if usedMemory s < memorySize then 0 else if restarted s then firstEntry s + 2 else firstEntry s + 1)"
  by (simp add: addEntry_defs)

lemma usedMemory_addEntry:
  "\<not> loading s \<Longrightarrow> usedMemory (addEntry fp now s) =
     (if usedMemory s < memorySize then usedMemory s + 1 else usedMemory s) +
     (if refTime s = Num 0 then 1 else 0)"
  by (simp add: addEntry_defs)

lemma lastEntry_addEntry:
  "\<not> loading s \<Longrightarrow> lastEntry (addEntry fp now s) =
     firstEntry (addEntry fp now s) + usedMemory (addEntry fp now s)"
  by (simp add: addEntry_defs)

lemma restarted_addEntry:
  "\<not> loading s \<Longrightarrow> restarted (addEntry fp now s) = (restarted s \<and> usedMemory s < memorySize)"
  by (simp add: addEntry_defs)

lemma refTime_addEntry:
  "\<not> loading s \<Longrightarrow> refTime (addEntry fp now s) =
     (if refTime s = Num 0 then js_sub now (Num epoch) else refTime s)"
  by (simp add: addEntry_defs)

lemma loading_addEntry: "loading (addEntry fp now s) = loading s"
  by (simp add: addEntry_defs)

lemma addEntry_loading: "loading s \<Longrightarrow> addEntry fp now s = s\<lparr>retryTimers := retryTimers s @ [now]\<rparr>"
  by (simp add: addEntry_def)


lemma addEntries_append:
  "addEntries fp (xs @ ys) s = addEntries fp ys (addEntries fp xs s)"
  by (induction fp xs s rule: addEntries.induct) simp_all

lemma loading_addEntries: "loading (addEntries fp cs s) = loading s"
  by (induction fp cs s rule: addEntries.induct) (simp_all add: loading_addEntry)

lemma emptyStore_fields:
  "\<not> loading (emptyStore f)" "refTime (emptyStore f) = Num 0" "usedMemory (emptyStore f) = 0"
  "firstEntry (emptyStore f) = 0" "lastEntry (emptyStore f) = 0" "restarted (emptyStore f)"
  by (simp_all add: emptyStore_def loadCompleted_def constructed_def)

lemma bookkeeping_addEntries:
  "\<not> loading s \<Longrightarrow> cs \<noteq> [] \<Longrightarrow>
     lastEntry (addEntries fp cs s) = firstEntry (addEntries fp cs s) + usedMemory (addEntries fp cs s)"
proof (induction cs rule: rev_induct)
  case Nil
  then show ?case by simp
next
  case (snoc c cs)
  obtain f now where c: "c = (f, now)"
    by (cases c)
  from snoc.prems have "\<not> loading ((addEntries fp cs s)\<lparr>entryFields := f\<rparr>)"
    by (simp add: loading_addEntries)
  then show ?case
    by (simp add: addEntries_append c lastEntry_addEntry)
qed

lemma capacity_addEntries:
  "\<not> loading s \<Longrightarrow> refTime s \<noteq> Num 0 \<Longrightarrow> usedMemory s \<le> memorySize \<Longrightarrow>
     usedMemory (addEntries fp cs s) \<le> memorySize \<and> refTime (addEntries fp cs s) \<noteq> Num 0"
proof (induction fp cs s rule: addEntries.induct)
  case (1 fp s)
  then show ?case by simp
next
  case (2 fp f now cs s)
  let ?s = "addEntry fp now (s\<lparr>entryFields := f\<rparr>)"
  from 2 have "\<not> loading ?s" "refTime ?s \<noteq> Num 0" "usedMemory ?s \<le> memorySize"
    by (simp_all add: loading_addEntry refTime_addEntry usedMemory_addEntry)
  then show ?case
    using "2.IH" by simp
qed

lemma usedMemory_mono_addEntry: "usedMemory s \<le> usedMemory (addEntry fp now s)"
  by (cases "loading s") (simp_all add: addEntry_loading usedMemory_addEntry)

lemma usedMemory_mono: "usedMemory s \<le> usedMemory (addEntries fp cs s)"
proof (induction fp cs s rule: addEntries.induct)
  case (1 fp s)
  then show ?case by simp
next
  case (2 fp f now cs s)
  have "usedMemory s \<le> usedMemory (addEntry fp now (s\<lparr>entryFields := f\<rparr>))"
    using usedMemory_mono_addEntry [of "s\<lparr>entryFields := f\<rparr>" fp now] by simp
  with 2 show ?case
    by simp
qed

lemma epoch_prefix:
  "\<forall>c\<in>set cs. snd c = Num epoch \<Longrightarrow> length cs \<le> 2016 \<Longrightarrow>
     usedMemory (addEntries fp cs (emptyStore f)) = 2 * int (length cs) \<and>
     refTime (addEntries fp cs (emptyStore f)) = Num 0 \<and>
     \<not> loading (addEntries fp cs (emptyStore f))"
proof (induction cs rule: rev_induct)
  case Nil
  then show ?case
    by (simp add: emptyStore_fields)
next
  case (snoc c cs)
  obtain g where c: "c = (g, Num epoch)"
    using snoc.prems(1) by (cases c) simp
  let ?s = "addEntries fp cs (emptyStore f)"
  from snoc have s: "usedMemory ?s = 2 * int (length cs)" "refTime ?s = Num 0" "\<not> loading ?s"
    by simp_all
  from snoc.prems(2) have "2 * int (length cs) < memorySize"
    by (simp add: memorySize_def)
  then show ?case
    by (simp add: addEntries_append c usedMemory_addEntry refTime_addEntry loading_addEntry s
        js_sub_def)
qed

lemma mixed_prefix:
  "length cs \<le> 2016 \<Longrightarrow>
     \<not> loading (addEntries fp cs (emptyStore f)) \<and>
     (if \<forall>c\<in>set cs. snd c = Num epoch
      then refTime (addEntries fp cs (emptyStore f)) = Num 0 \<and>
           usedMemory (addEntries fp cs (emptyStore f)) = 2 * int (length cs)
      else refTime (addEntries fp cs (emptyStore f)) \<noteq> Num 0 \<and>
           usedMemory (addEntries fp cs (emptyStore f)) \<le> memorySize)"
proof (induction cs rule: rev_induct)
  case Nil
  then show ?case
    by (simp add: emptyStore_fields)
next
  case (snoc c cs)
  obtain g now where c: "c = (g, now)"
    by (cases c)
  let ?s = "addEntries fp cs (emptyStore f)"
  from snoc have idle: "\<not> loading ?s"
    by simp
  show ?case
  proof (cases "\<forall>c\<in>set cs. snd c = Num epoch")
    case True
    with snoc have s: "usedMemory ?s = 2 * int (length cs)" "refTime ?s = Num 0"
      by simp_all
    from snoc.prems have "2 * int (length cs) < memorySize" "2 * int (length cs) + 2 \<le> memorySize"
      by (simp_all add: memorySize_def)
    with True show ?thesis
      by (simp add: addEntries_append c usedMemory_addEntry refTime_addEntry loading_addEntry s idle
          js_sub_zero)
  next
    case False
    with snoc have s: "refTime ?s \<noteq> Num 0" "usedMemory ?s \<le> memorySize"
      by simp_all
    with False show ?thesis
      by (auto simp add: addEntries_append c usedMemory_addEntry refTime_addEntry loading_addEntry idle)
  qed
qed

text \<open>
  The bookkeeping of a run of \<open>_addEntry\<close> from the empty store, after the first \<open>n\<close> calls
  for every \<open>n\<close> from 1 to the length of the run: \<open>lastEntry - firstEntry = usedMemory\<close>
  always, and \<open>usedMemory\<close> is at most the capacity 4032 in every run but one kind, the runs
  of more than 2016 calls whose first 2016 calls were all made at the device epoch.
\<close>

theorem ring_bookkeeping_invariant:
  assumes "0 < n" and "n \<le> length calls"
  shows "lastEntry (addEntries fp (take n calls) (emptyStore f)) -
           firstEntry (addEntries fp (take n calls) (emptyStore f)) =
         usedMemory (addEntries fp (take n calls) (emptyStore f)) \<and>
         (usedMemory (addEntries fp (take n calls) (emptyStore f)) \<le> 4032 \<longleftrightarrow>
            n \<le> 2016 \<or> (\<exists>c\<in>set (take 2016 calls). snd c \<noteq> Num epoch))"
proof -
  let ?s = "addEntries fp (take n calls) (emptyStore f)"
  from assms have ne: "take n calls \<noteq> []"
    by auto
  have first: "lastEntry ?s = firstEntry ?s + usedMemory ?s"
    by (rule bookkeeping_addEntries [OF emptyStore_fields(1) ne])
  have second: "usedMemory ?s \<le> 4032 \<longleftrightarrow>
      n \<le> 2016 \<or> (\<exists>c\<in>set (take 2016 calls). snd c \<noteq> Num epoch)"
  proof (cases "n \<le> 2016")
    case True
    with assms have "length (take n calls) \<le> 2016"
      by simp
    from mixed_prefix [OF this, of fp f] have "usedMemory ?s \<le> 4032"
      using True assms by (auto simp add: memorySize_def split: if_splits)
    with True show ?thesis
      by simp
  next
    case False
    let ?p = "addEntries fp (take 2016 calls) (emptyStore f)"
    from False assms have len: "length (take 2016 calls) = 2016"
      by simp
    from False have split: "take n calls = take 2016 calls @ drop 2016 (take n calls)"
      by (metis append_take_drop_id min.absorb1 nat_le_linear take_take)
    from False assms obtain g now rest where rest: "drop 2016 (take n calls) = (g, now) # rest"
      by (cases "drop 2016 (take n calls)") auto
    have s: "?s = addEntries fp rest (addEntry fp now (?p\<lparr>entryFields := g\<rparr>))"
      by (subst split) (simp add: addEntries_append rest)
    have p: "\<not> loading ?p"
      by (simp add: loading_addEntries emptyStore_fields)
    show ?thesis
    proof (cases "\<forall>c\<in>set (take 2016 calls). snd c = Num epoch")
      case True
      from epoch_prefix [OF True, of fp f] len
      have "usedMemory ?p = 4032" "refTime ?p = Num 0"
        by simp_all
      with p have "usedMemory (addEntry fp now (?p\<lparr>entryFields := g\<rparr>)) = 4033"
        by (simp add: usedMemory_addEntry memorySize_def)
      then have "4033 \<le> usedMemory ?s"
        using usedMemory_mono [of "addEntry fp now (?p\<lparr>entryFields := g\<rparr>)" fp rest]
        by (simp add: s)
      with True False show ?thesis
        by auto
    next
      case nonepoch: False
      from mixed_prefix [of "take 2016 calls" fp f] len nonepoch
      have "refTime ?p \<noteq> Num 0" "usedMemory ?p \<le> memorySize"
        by (simp_all split: if_splits)
      with p have "\<not> loading (addEntry fp now (?p\<lparr>entryFields := g\<rparr>))"
        "refTime (addEntry fp now (?p\<lparr>entryFields := g\<rparr>)) \<noteq> Num 0"
        "usedMemory (addEntry fp now (?p\<lparr>entryFields := g\<rparr>)) \<le> memorySize"
        by (simp_all add: loading_addEntry refTime_addEntry usedMemory_addEntry)
      then have "usedMemory ?s \<le> memorySize"
        unfolding s by (blast dest: capacity_addEntries)
      with nonepoch show ?thesis
        by (auto simp add: memorySize_def)
    qed
  qed
  from first second show ?thesis
    by simp
qed

theorem ring_bookkeeping_invariant_witness:
  "(0 :: nat) < 2 \<and> 2 \<le> length [(Num 0, Num 1000000000), (Num 1, Num 1000000600)] \<and>
   lastEntry (addEntries contactFingerPrint
                (take 2 [(Num 0, Num 1000000000), (Num 1, Num 1000000600)]) (emptyStore (Num 0))) -
   firstEntry (addEntries contactFingerPrint
                (take 2 [(Num 0, Num 1000000000), (Num 1, Num 1000000600)]) (emptyStore (Num 0))) =
   usedMemory (addEntries contactFingerPrint
                (take 2 [(Num 0, Num 1000000000), (Num 1, Num 1000000600)]) (emptyStore (Num 0))) \<and>
   usedMemory (addEntries contactFingerPrint
                (take 2 [(Num 0, Num 1000000000), (Num 1, Num 1000000600)]) (emptyStore (Num 0)))
     \<le> 4032"
  using ring_bookkeeping_invariant
    [of 2 "[(Num 0, Num 1000000000), (Num 1, Num 1000000600)]" contactFingerPrint "Num 0"]
  by (simp del: addEntries.simps)


lemma history_addEntry_entry:
  "\<not> loading s \<Longrightarrow>
     history (addEntry fp now s) (js_rem (lastEntry (addEntry fp now s)) memorySize) =
       Some (EntryCopy now (entryFields s))"
  by (simp add: addEntry_defs)

lemma advanceRing_keeps:
  "refTime (advanceRing s) = refTime s" "entryTime (advanceRing s) = entryTime s"
  by (simp_all add: advanceRing_def Let_def)

lemma refTime_marker_kept:
  assumes "refTime s = Num 0"
  shows "history (storeEntry (setReferenceTime s)) (lastEntry s) =
           Some (RefTimeMarker (entryTime s)) \<and>
         lastEntry (storeEntry (setReferenceTime s)) = lastEntry s + 1"
proof -
  have "js_rem (lastEntry s + 1) memorySize \<noteq> lastEntry s"
    by (rule js_rem_apart(2)) (simp add: memorySize_def)
  with assms show ?thesis
    by (simp add: setReferenceTime_def storeEntry_def Let_def)
qed

lemma history_addEntry_refTime_marker:
  assumes "\<not> loading s" and "refTime s = Num 0"
  shows "history (addEntry fp now s) (lastEntry (addEntry fp now s) - 1) = Some (RefTimeMarker now)"
proof -
  let ?r = "advanceRing (s\<lparr>entryTime := now\<rparr>)"
  have r: "refTime ?r = Num 0" "entryTime ?r = now"
    using assms by (simp_all add: advanceRing_keeps)
  have "history (addEntry fp now s) = history (storeEntry (setReferenceTime ?r))"
    and "lastEntry (addEntry fp now s) = lastEntry (storeEntry (setReferenceTime ?r))"
    using assms by (simp_all add: addEntry_def Let_def)
  then show ?thesis
    using refTime_marker_kept [OF r(1)] by (simp add: r)
qed

lemma initialTime_addEntry:
  "\<not> loading s \<Longrightarrow> initialTime (addEntry fp now s) =
     (if refTime s = Num 0 then Some now else initialTime s)"
  by (simp add: addEntry_defs)

text \<open>
  C2. A call of \<open>_addEntry\<close> that finds no reference time set (\<open>_refTime\<close> is 0, as in
  the empty store) sets the reference time to the time of the entry minus the device
  epoch, which is the Unix time of the first second of 2001; it records that time as
  \<open>_initialTime\<close>; and it writes the marker \<open>{time, setRefTime: 1}\<close> at the logical index
  just before the one of the entry, which is the new \<open>_lastEntry\<close>.
\<close>

theorem first_addEntry_sets_reference_time:
  assumes "refTime s = Num 0" and "\<not> loading s"
  shows "refTime (addEntry fp now s) = js_sub now (Num epoch) \<and>
         epoch = (31 * 365 + 8) * 86400 \<and>
         initialTime (addEntry fp now s) = Some now \<and>
         history (addEntry fp now s) (lastEntry (addEntry fp now s) - 1) =
           Some (RefTimeMarker now) \<and>
         history (addEntry fp now s) (js_rem (lastEntry (addEntry fp now s)) memorySize) =
           Some (EntryCopy now (entryFields s)) \<and>
         lastEntry (addEntry fp now s) - 1 < lastEntry (addEntry fp now s)"
  using assms
  by (simp add: refTime_addEntry initialTime_addEntry history_addEntry_entry
      history_addEntry_refTime_marker epoch_def)

lemma emptyStore_first_call:
  "lastEntry (addEntry fp now ((emptyStore f)\<lparr>entryFields := g\<rparr>)) = 2"
  by (simp add: lastEntry_addEntry firstEntry_addEntry usedMemory_addEntry emptyStore_fields memorySize_def)

theorem first_addEntry_sets_reference_time_witness:
  "refTime ((emptyStore (Num 0))\<lparr>entryFields := Num 1\<rparr>) = Num 0 \<and>
   \<not> loading ((emptyStore (Num 0))\<lparr>entryFields := Num 1\<rparr>) \<and>
   refTime (addEntry contactFingerPrint (Num 1000000000) ((emptyStore (Num 0))\<lparr>entryFields := Num 1\<rparr>)) =
     Num 21692800 \<and>
   initialTime (addEntry contactFingerPrint (Num 1000000000) ((emptyStore (Num 0))\<lparr>entryFields := Num 1\<rparr>)) =
     Some (Num 1000000000) \<and>
   history (addEntry contactFingerPrint (Num 1000000000) ((emptyStore (Num 0))\<lparr>entryFields := Num 1\<rparr>)) 1 =
     Some (RefTimeMarker (Num 1000000000)) \<and>
   history (addEntry contactFingerPrint (Num 1000000000) ((emptyStore (Num 0))\<lparr>entryFields := Num 1\<rparr>)) 2 =
     Some (EntryCopy (Num 1000000000) (Num 1))"
  using first_addEntry_sets_reference_time
    [of "(emptyStore (Num 0))\<lparr>entryFields := Num 1\<rparr>" contactFingerPrint "Num 1000000000"]
  by (simp add: emptyStore_fields emptyStore_first_call js_sub_def epoch_def js_rem_nonneg)

lemma length_trace: "length (trace fp cs s) = Suc (length cs)"
  by (induction fp cs s rule: trace.induct) simp_all

lemma trace_nth: "i \<le> length cs \<Longrightarrow> trace fp cs s ! i = addEntries fp (take i cs) s"
proof (induction fp cs s arbitrary: i rule: trace.induct)
  case (1 fp s)
  then show ?case by simp
next
  case (2 fp f now cs s)
  then show ?case
    by (cases i) simp_all
qed

lemma trace_step:
  assumes "i < length cs"
  shows "trace fp cs s ! Suc i =
    addEntry fp (snd (cs ! i)) ((trace fp cs s ! i)\<lparr>entryFields := fst (cs ! i)\<rparr>)"
proof -
  obtain f now where c: "cs ! i = (f, now)"
    by (cases "cs ! i")
  from assms have "take (Suc i) cs = take i cs @ [(f, now)]"
    by (simp add: take_Suc_conv_app_nth c)
  with assms show ?thesis
    by (simp add: trace_nth addEntries_append c)
qed

lemma loading_trace: "i \<le> length cs \<Longrightarrow> loading (trace fp cs s ! i) = loading s"
  by (simp add: trace_nth loading_addEntries)

lemma history_addEntry:
  assumes "\<not> loading s"
  shows "history (addEntry fp now s) =
    (let marked = (if \<not> usedMemory s < memorySize \<and> restarted s
                   then (history s)(js_rem (firstEntry s + 1 + usedMemory s) memorySize \<mapsto>
                                      RefTimeMarker now)
                   else history s);
         timed = (if refTime s = Num 0
                  then marked(lastEntry (addEntry fp now s) - 1 \<mapsto> RefTimeMarker now)
                  else marked)
     in timed(js_rem (lastEntry (addEntry fp now s)) memorySize \<mapsto>
                EntryCopy now (entryFields s)))"
  using assms by (simp add: addEntry_defs add.commute add.left_commute)

lemma restarted_trace:
  assumes "restarted s" and "\<not> loading s" and "j \<le> length calls"
  shows "restarted (trace fp calls s ! j) \<longleftrightarrow>
           (\<forall>k<j. usedMemory (trace fp calls s ! k) < memorySize)"
  using assms(3)
proof (induction j)
  case 0
  with assms(1) show ?case
    by (simp add: trace_nth)
next
  case (Suc j)
  then have j: "j < length calls"
    by simp
  with assms(2) have "\<not> loading ((trace fp calls s ! j)\<lparr>entryFields := fst (calls ! j)\<rparr>)"
    by (simp add: loading_trace)
  then have "restarted (trace fp calls s ! Suc j) \<longleftrightarrow>
      restarted (trace fp calls s ! j) \<and> usedMemory (trace fp calls s ! j) < memorySize"
    by (simp add: trace_step [OF j] restarted_addEntry)
  with Suc j show ?case
    by (auto simp add: less_Suc_eq)
qed

text \<open>
  C5. Take the store a restart leaves (\<open>_restarted\<close> is true, the counters and the history
  are those of the file, if any) and any run of calls of \<open>_addEntry\<close> on it. The buffer is
  full before a call when \<open>_usedMemory < _memorySize\<close> fails. For each call of the run the
  theorem gives all it writes to the history and where it leaves the counters:
  \<^item> the first call that finds the buffer full, and no other call, writes the marker of a
    restart, with its time, in the slot after \<open>_firstEntry + _usedMemory\<close>; it advances
    \<open>_firstEntry\<close> by 2 and clears \<open>_restarted\<close>;
  \<^item> every later call finds the buffer full too, writes no such marker and advances
    \<open>_firstEntry\<close> by 1; every earlier call leaves \<open>_firstEntry\<close> at 0 and \<open>_restarted\<close>
    true;
  \<^item> besides, every call writes its entry at \<open>_lastEntry\<close> modulo the capacity, after the
    marker of the reference time if none is set, and \<open>_lastEntry\<close> is \<open>_firstEntry +
    _usedMemory\<close> after it.
  At the call that writes the marker of the restart \<open>_usedMemory\<close> is exactly the capacity,
  if the run starts from a store that does not exceed it and whose \<open>_usedMemory\<close> is even
  while the reference time is not set, as are the empty store and every store with a
  reference time and at most 4032 slots in use.
\<close>

theorem restart_marker_once:
  assumes "restarted s" and "\<not> loading s" and "j < length calls"
  shows "let pre = trace fp calls s ! j;
             post = trace fp calls s ! Suc j;
             now = snd (calls ! j);
             full = (\<not> usedMemory pre < memorySize);
             firstFull = (full \<and> (\<forall>k<j. usedMemory (trace fp calls s ! k) < memorySize));
             marked = (if firstFull
                       then (history pre)(js_rem (firstEntry pre + 1 + usedMemory pre) memorySize \<mapsto>
                                            RefTimeMarker now)
                       else history pre);
             timed = (if refTime pre = Num 0 then marked(lastEntry post - 1 \<mapsto> RefTimeMarker now)
                      else marked)
         in history post =
              timed(js_rem (lastEntry post) memorySize \<mapsto> EntryCopy now (fst (calls ! j))) \<and>
            firstEntry post =
              (if firstFull then firstEntry pre + 2 else if full then firstEntry pre + 1 else 0) \<and>
            usedMemory post =
              usedMemory pre + (if full then 0 else 1) + (if refTime pre = Num 0 then 1 else 0) \<and>
            lastEntry post = firstEntry post + usedMemory post \<and>
            restarted post =
              (\<not> full \<and> (\<forall>k<j. usedMemory (trace fp calls s ! k) < memorySize)) \<and>
            (firstFull \<and> usedMemory s \<le> memorySize \<and>
             (refTime s = Num 0 \<longrightarrow> even (usedMemory s)) \<longrightarrow> usedMemory pre = memorySize)"
proof -
  let ?t = "\<lambda>k. trace fp calls s ! k"
  let ?q = "(?t j)\<lparr>entryFields := fst (calls ! j)\<rparr>"
  let ?now = "snd (calls ! j)"
  have step: "?t (Suc k) = addEntry fp (snd (calls ! k)) ((?t k)\<lparr>entryFields := fst (calls ! k)\<rparr>)"
    if "k < length calls" for k
    using that by (rule trace_step)
  have idle: "\<not> loading ?q"
    using assms(2,3) by (simp add: loading_trace)
  have flag: "restarted (?t j) \<longleftrightarrow> (\<forall>k<j. usedMemory (?t k) < memorySize)"
    using assms by (simp add: restarted_trace)
  have hist: "history (?t (Suc j)) =
      (let marked = (if \<not> usedMemory (?t j) < memorySize \<and> restarted (?t j)
                     then (history (?t j))(js_rem (firstEntry (?t j) + 1 + usedMemory (?t j)) memorySize \<mapsto>
                                        RefTimeMarker ?now)
                     else history (?t j));
           timed = (if refTime (?t j) = Num 0
                    then marked(lastEntry (?t (Suc j)) - 1 \<mapsto> RefTimeMarker ?now)
                    else marked)
       in timed(js_rem (lastEntry (?t (Suc j))) memorySize \<mapsto> EntryCopy ?now (fst (calls ! j))))"
    using history_addEntry [OF idle, of fp ?now] by (simp add: step [OF assms(3)] Let_def)
  have first: "firstEntry (?t (Suc j)) =
      (if \<not> usedMemory (?t j) < memorySize \<and> restarted (?t j) then firstEntry (?t j) + 2
       else if \<not> usedMemory (?t j) < memorySize then firstEntry (?t j) + 1 else 0)"
    using idle by (simp add: step [OF assms(3)] firstEntry_addEntry)
  have used: "usedMemory (?t (Suc j)) =
      usedMemory (?t j) + (if \<not> usedMemory (?t j) < memorySize then 0 else 1) +
      (if refTime (?t j) = Num 0 then 1 else 0)"
    using idle by (simp add: step [OF assms(3)] usedMemory_addEntry)
  have last: "lastEntry (?t (Suc j)) = firstEntry (?t (Suc j)) + usedMemory (?t (Suc j))"
    using lastEntry_addEntry [OF idle, of fp ?now] by (simp add: step [OF assms(3)])
  have again: "restarted (?t (Suc j)) \<longleftrightarrow> restarted (?t j) \<and> usedMemory (?t j) < memorySize"
    using idle by (simp add: step [OF assms(3)] restarted_addEntry)
  have exact: "usedMemory (?t j) = memorySize"
    if full: "\<not> usedMemory (?t j) < memorySize"
      and before: "\<forall>k<j. usedMemory (?t k) < memorySize"
      and start: "usedMemory s \<le> memorySize" "refTime s = Num 0 \<longrightarrow> even (usedMemory s)"
  proof -
    have "usedMemory (?t k) \<le> memorySize \<and> (refTime (?t k) = Num 0 \<longrightarrow> even (usedMemory (?t k)))"
      if "k \<le> j" for k
      using that
    proof (induction k)
      case 0
      with start show ?case
        by (simp add: trace_nth)
    next
      case (Suc k)
      then have k: "k < j" "k < length calls"
        using assms(3) by simp_all
      let ?p = "(?t k)\<lparr>entryFields := fst (calls ! k)\<rparr>"
      from Suc k before have p: "\<not> loading ?p" "usedMemory ?p < memorySize"
        "refTime ?p = Num 0 \<longrightarrow> even (usedMemory ?p)"
        using assms(2) by (simp_all add: loading_trace)
      have "usedMemory (addEntry fp (snd (calls ! k)) ?p) \<le> memorySize \<and>
        (refTime (addEntry fp (snd (calls ! k)) ?p) = Num 0 \<longrightarrow>
           even (usedMemory (addEntry fp (snd (calls ! k)) ?p)))"
      proof (cases "refTime ?p = Num 0")
        case True
        with p have "even (usedMemory ?p)"
          by simp
        with p(2) have "usedMemory ?p + 2 \<le> memorySize"
          unfolding memorySize_def by presburger
        with True p \<open>even (usedMemory ?p)\<close> show ?thesis
          by (simp add: usedMemory_addEntry refTime_addEntry)
      next
        case False
        with p show ?thesis
          by (simp add: usedMemory_addEntry refTime_addEntry)
      qed
      with k show ?case
        by (simp add: step)
    qed
    from this [of j] full show ?thesis
      by simp
  qed
  show ?thesis
    unfolding Let_def using hist first used last again exact flag
    by (auto simp add: Let_def)
qed


lemma js_rem_wrapped: "js_rem 4043 4032 = 11" "js_rem 4044 4032 = 12" "js_rem 4045 4032 = 13"
  by (simp_all add: js_rem_def)

theorem restart_marker_once_witness:
  "restarted (loadCompleted (Some fullSnapshot) (constructed (Num 0))) \<and>
   \<not> loading (loadCompleted (Some fullSnapshot) (constructed (Num 0))) \<and>
   (1 :: nat) < length [(Num 1, Num 1002500000), (Num 0, Num 1002500600)] \<and>
   \<not> usedMemory
       (trace contactFingerPrint [(Num 1, Num 1002500000), (Num 0, Num 1002500600)]
          (loadCompleted (Some fullSnapshot) (constructed (Num 0))) ! 0) < memorySize \<and>
   firstEntry
     (trace contactFingerPrint [(Num 1, Num 1002500000), (Num 0, Num 1002500600)]
        (loadCompleted (Some fullSnapshot) (constructed (Num 0))) ! Suc 0) = 12 \<and>
   history
     (trace contactFingerPrint [(Num 1, Num 1002500000), (Num 0, Num 1002500600)]
        (loadCompleted (Some fullSnapshot) (constructed (Num 0))) ! Suc 0) =
     (snapHistory fullSnapshot)
       (11 \<mapsto> RefTimeMarker (Num 1002500000), 12 \<mapsto> EntryCopy (Num 1002500000) (Num 1)) \<and>
   \<not> restarted
       (trace contactFingerPrint [(Num 1, Num 1002500000), (Num 0, Num 1002500600)]
          (loadCompleted (Some fullSnapshot) (constructed (Num 0))) ! Suc 0) \<and>
   firstEntry
     (trace contactFingerPrint [(Num 1, Num 1002500000), (Num 0, Num 1002500600)]
        (loadCompleted (Some fullSnapshot) (constructed (Num 0))) ! Suc 1) = 13 \<and>
   history
     (trace contactFingerPrint [(Num 1, Num 1002500000), (Num 0, Num 1002500600)]
        (loadCompleted (Some fullSnapshot) (constructed (Num 0))) ! Suc 1) =
     (snapHistory fullSnapshot)
       (11 \<mapsto> RefTimeMarker (Num 1002500000), 12 \<mapsto> EntryCopy (Num 1002500000) (Num 1),
        13 \<mapsto> EntryCopy (Num 1002500600) (Num 0)) \<and>
   restarted (emptyStore (Num 0)) \<and> \<not> loading (emptyStore (Num 0)) \<and>
   usedMemory (trace contactFingerPrint [(Num 1, Num 1002500000)] (emptyStore (Num 0)) ! 0)
     < memorySize \<and>
   firstEntry (trace contactFingerPrint [(Num 1, Num 1002500000)] (emptyStore (Num 0)) ! Suc 0) = 0 \<and>
   restarted (trace contactFingerPrint [(Num 1, Num 1002500000)] (emptyStore (Num 0)) ! Suc 0)"
  using restart_marker_once
    [where s = "loadCompleted (Some fullSnapshot) (constructed (Num 0))" and j = 0
       and calls = "[(Num 1, Num 1002500000), (Num 0, Num 1002500600)]" and fp = contactFingerPrint]
    restart_marker_once
    [where s = "loadCompleted (Some fullSnapshot) (constructed (Num 0))" and j = 1
       and calls = "[(Num 1, Num 1002500000), (Num 0, Num 1002500600)]" and fp = contactFingerPrint]
    restart_marker_once
    [where s = "emptyStore (Num 0)" and j = 0
       and calls = "[(Num 1, Num 1002500000)]" and fp = contactFingerPrint]
  by (simp add: Let_def loadCompleted_def constructed_def fullSnapshot_def emptyStore_def
      memorySize_def js_rem_wrapped loading_addEntry usedMemory_addEntry restarted_addEntry
      firstEntry_addEntry lastEntry_addEntry refTime_addEntry)

section \<open>Properties of the request\<close>

lemma filling_run:
  "\<not> loading s \<Longrightarrow> refTime s \<noteq> Num 0 \<Longrightarrow> usedMemory s + int (length cs) \<le> memorySize \<Longrightarrow>
     usedMemory (addEntries fp cs s) = usedMemory s + int (length cs) \<and>
     restarted (addEntries fp cs s) = restarted s \<and>
     refTime (addEntries fp cs s) = refTime s \<and>
     (cs \<noteq> [] \<longrightarrow> firstEntry (addEntries fp cs s) = 0)"
proof (induction cs rule: rev_induct)
  case Nil
  then show ?case by simp
next
  case (snoc c cs)
  obtain f now where c: "c = (f, now)"
    by (cases c)
  let ?s = "(addEntries fp cs s)\<lparr>entryFields := f\<rparr>"
  from snoc have s: "\<not> loading ?s" "refTime ?s \<noteq> Num 0" "usedMemory ?s < memorySize"
    "usedMemory ?s = usedMemory s + int (length cs)" "restarted ?s = restarted s"
    "refTime ?s = refTime s"
    by (simp_all add: loading_addEntries)
  from snoc.prems have lt: "usedMemory s + int (length cs) < memorySize"
    by simp
  show ?case
    unfolding addEntries_append c
    using snoc.prems(2) lt
    by (simp add: usedMemory_addEntry restarted_addEntry refTime_addEntry firstEntry_addEntry
        s(1,4,5,6))
qed

lemma wrapped_store:
  "firstEntry (addEntries fp (replicate 4032 (g, Num 1000000000)) (emptyStore f)) = 2"
proof -
  let ?c = "(g, Num 1000000000)"
  let ?s1 = "addEntry fp (Num 1000000000) ((emptyStore f)\<lparr>entryFields := g\<rparr>)"
  let ?s2 = "addEntries fp (replicate 4030 ?c) ?s1"
  have "replicate 4032 ?c = replicate (Suc (Suc 4030)) ?c"
    by simp
  also have "\<dots> = ?c # replicate 4030 ?c @ [?c]"
    by (simp only: replicate_Suc replicate_append_same)
  finally have split: "replicate 4032 ?c = ?c # replicate 4030 ?c @ [?c]" .
  have s1: "\<not> loading ?s1" "refTime ?s1 \<noteq> Num 0" "usedMemory ?s1 = 2" "restarted ?s1"
    by (simp_all add: loading_addEntry refTime_addEntry usedMemory_addEntry restarted_addEntry
        emptyStore_fields js_sub_def epoch_def memorySize_def)
  have "usedMemory ?s1 + int (length (replicate 4030 ?c)) \<le> memorySize"
    by (simp add: s1 memorySize_def)
  from filling_run [OF s1(1) s1(2) this, of fp]
  have s2: "usedMemory ?s2 = 4032" "restarted ?s2" "\<not> loading ?s2" "firstEntry ?s2 = 0"
    by (simp_all add: s1 loading_addEntries)
  show ?thesis
    unfolding split
    by (simp add: addEntries_append firstEntry_addEntry s2 memorySize_def)
qed

lemma request_of_index_0: "requestedEntry ''ARQAAAAAAAA='' = 0"
  by code_simp

lemma request_of_index_2: "requestedEntry ''ARQCAAAAAAA='' = 2"
  by code_simp

lemma request_of_index_4033:
  "base64StringToHex ''ARTBDwAAAAA='' = ''0114c10f00000000'' \<and> requestedEntry ''ARTBDwAAAAA='' = 4033"
  by code_simp

lemma hexDigit_props: "d < 16 \<Longrightarrow> isHexChar (hexDigit d) \<and> unhex (hexDigit d) = d"
proof -
  have "\<forall>d\<in>set [0..<16]. isHexChar (hexDigit d) \<and> unhex (hexDigit d) = d"
    by code_simp
  then show "d < 16 \<Longrightarrow> isHexChar (hexDigit d) \<and> unhex (hexDigit d) = d"
    by simp
qed

lemma parseInt16_four_bytes:
  assumes "a < 256" "b < 256" "c < 256" "d < 256"
  shows "parseInt16 (toHex [a, b, c, d]) =
           Num (int a * 16777216 + int b * 65536 + int c * 256 + int d)"
proof -
  have digit: "isHexChar (hexDigit (x div 16))" "isHexChar (hexDigit (x mod 16))"
    "unhex (hexDigit (x div 16)) = x div 16" "unhex (hexDigit (x mod 16)) = x mod 16"
    if "x < 256" for x
    using that hexDigit_props [of "x div 16"] hexDigit_props [of "x mod 16"] by simp_all
  have byte: "int (x div 16) * 16 + int (x mod 16) = int x" for x
    by (simp add: zdiv_int zmod_int)
  have "parseInt16 (toHex [a, b, c, d]) =
      Num ((((((((int (a div 16) * 16 + int (a mod 16)) * 16 + int (b div 16)) * 16 +
        int (b mod 16)) * 16 + int (c div 16)) * 16 + int (c mod 16)) * 16 +
        int (d div 16)) * 16 + int (d mod 16)))"
    using assms by (simp add: parseInt16_def toHex_def digit)
  also have "\<dots> = Num (int a * 16777216 + int b * 65536 + int c * 256 + int d)"
    by (simp only: byte [of a, symmetric] byte [of b, symmetric] byte [of c, symmetric]
        byte [of d, symmetric]) (simp add: algebra_simps)
  finally show ?thesis .
qed

lemma byte_bits: "a < 256 \<Longrightarrow> bit (int a) k \<Longrightarrow> k < 8"
proof -
  assume "a < 256" and k: "bit (int a) k"
  then have "take_bit 8 (int a) = int a"
    by (simp add: take_bit_int_eq_self)
  with k have "bit (take_bit 8 (int a)) k"
    by simp
  then show "k < 8"
    by (simp add: bit_take_bit_iff)
qed

lemma bit_four_bytes:
  assumes "a < 256" "b < 256" "c < 256" "d < 256"
  shows "bit (int a * 16777216 + int b * 65536 + int c * 256 + int d) n \<longleftrightarrow>
    (n < 8 \<and> bit (int d) n) \<or> (8 \<le> n \<and> n < 16 \<and> bit (int c) (n - 8)) \<or>
    (16 \<le> n \<and> n < 24 \<and> bit (int b) (n - 16)) \<or> (24 \<le> n \<and> n < 32 \<and> bit (int a) (n - 24))"
proof -
  have concat: "int a * 16777216 + int b * 65536 + int c * 256 + int d =
      concat_bit 8 (int d) (concat_bit 8 (int c) (concat_bit 8 (int b) (int a)))"
    using assms by (simp add: concat_bit_eq take_bit_int_eq_self push_bit_eq_mult)
  have top: "bit (int a) (n - 24) \<Longrightarrow> n < 32"
    using byte_bits [OF assms(1), of "n - 24"] by simp
  consider "n < 8" | "8 \<le> n" "n < 16" | "16 \<le> n" "n < 24" | "24 \<le> n"
    by linarith
  then show ?thesis
    unfolding concat using top by cases (auto simp add: bit_concat_bit_iff)
qed

lemma swap32Bits_four_bytes:
  assumes "a < 256" "b < 256" "c < 256" "d < 256"
  shows "swap32Bits (word_of_int (int a * 16777216 + int b * 65536 + int c * 256 + int d)) =
         word_of_int (int d * 16777216 + int c * 65536 + int b * 256 + int a)"
proof -
  define x where "x = int a * 16777216 + int b * 65536 + int c * 256 + int d"
  define y where "y = int d * 16777216 + int c * 65536 + int b * 256 + int a"
  note bits = bit_four_bytes [OF assms, folded x_def]
    bit_four_bytes [OF assms(4) assms(3) assms(2) assms(1), folded y_def]
  have "swap32Bits (word_of_int x) = (word_of_int y :: 32 word)"
  proof (rule bit_word_eqI)
    fix n
    assume "n < LENGTH(32)"
    then have n: "n < 32"
      by simp
    consider "n < 8" | "8 \<le> n" "n < 16" | "16 \<le> n" "n < 24" | "24 \<le> n"
      by linarith
    then show "bit (swap32Bits (word_of_int x)) n = bit (word_of_int y :: 32 word) n"
      using n by cases (auto simp add: bit_swap32Bits bit_word_of_int_iff bits)
  qed
  then show ?thesis
    unfolding x_def y_def .
qed

lemma unbase64_less: "unbase64 c = Some v \<Longrightarrow> v < 64"
proof -
  assume "unbase64 c = Some v"
  then have "(c, v) \<in> set (zip (base64Alphabet @ ''-_'') ([0 ..< 64] @ [62, 63]))"
    unfolding unbase64_def by (rule map_of_SomeD)
  then have "v \<in> set ([0 ..< 64] @ [62, 63])"
    by (rule set_zip_rightD)
  then show "v < 64"
    by auto
qed

lemma fromSextets_bytes: "\<forall>v\<in>set vs. v < 64 \<Longrightarrow> \<forall>b\<in>set (fromSextets vs). b < 256"
  by (induction vs rule: fromSextets.induct) auto

lemma fromBase64_bytes: "b \<in> set (fromBase64 value) \<Longrightarrow> b < 256"
proof -
  have "\<forall>v\<in>set (List.map_filter unbase64 (takeWhile (\<lambda>c. c \<noteq> CHR ''='') value)). v < 64"
    by (auto simp add: map_filter_def dest: unbase64_less)
  then have "\<forall>b\<in>set (fromBase64 value). b < 256"
    unfolding fromBase64_def by (rule fromSextets_bytes)
  then show "b \<in> set (fromBase64 value) \<Longrightarrow> b < 256"
    by simp
qed

text \<open>
  The decoded index of a request of at least six bytes: the number whose four bytes, least
  significant first, are the bytes 2 to 5 of the request, read as a signed 32-bit number.
\<close>

lemma requestedEntry_of_bytes:
  assumes "fromBase64 value = b0 # b1 # a0 # a1 # a2 # a3 # rest"
  shows "requestedEntry value =
    sint (word_of_int (int a3 * 16777216 + int a2 * 65536 + int a1 * 256 + int a0) :: 32 word)"
proof -
  have bytes: "a0 < 256" "a1 < 256" "a2 < 256" "a3 < 256"
    using fromBase64_bytes [of _ "value"] assms by simp_all
  have "substring 4 12 (base64StringToHex value) = toHex [a0, a1, a2, a3]"
    by (simp add: base64StringToHex_def assms toHex_def substring_def)
  then have "requestedEntry value =
      sint (swap32Bits (word_of_int (int a0 * 16777216 + int a1 * 65536 + int a2 * 256 + int a3)))"
    by (simp add: requestedEntry_def parseInt16_four_bytes bytes swap32_def ToInt32_def)
  then show ?thesis
    by (simp only: swap32Bits_four_bytes [OF bytes])
qed

lemma request_of_index_4033_bytes: "fromBase64 ''ARTBDwAAAAA='' = [1, 20, 193, 15, 0, 0, 0, 0]"
  by code_simp

text \<open>
  C3 (as amended). A write to the request sets the cursor to 1 when the decoded index is 0
  and to the decoded index otherwise, and makes the transfer active; nothing else changes.
  The cursor 1 is \<open>firstEntry + 1\<close>, the oldest retained entry, exactly while
  \<open>firstEntry\<close> is 0, that is until the buffer has wrapped. The decoded index of a
  request of at least six bytes is the signed 32-bit number whose bytes, least significant
  first, are the bytes 2 to 5 of the request (the hexadecimal digits 4 to 11).
\<close>

theorem onSetHistoryRequest_cursor:
  "onSetHistoryRequest value s =
     s\<lparr>currentEntry := (if requestedEntry value = 0 then 1 else requestedEntry value),
       transfer := True\<rparr> \<and>
   (requestedEntry value = 0 \<longrightarrow>
      (currentEntry (onSetHistoryRequest value s) = firstEntry s + 1 \<longleftrightarrow> firstEntry s = 0)) \<and>
   (requestedEntry value \<noteq> 0 \<longrightarrow>
      currentEntry (onSetHistoryRequest value s) = requestedEntry value) \<and>
   (fromBase64 value = b0 # b1 # a0 # a1 # a2 # a3 # rest \<longrightarrow>
      requestedEntry value =
        sint (word_of_int (int a3 * 16777216 + int a2 * 65536 + int a1 * 256 + int a0) :: 32 word))"
  by (simp add: onSetHistoryRequest_def Let_def requestedEntry_of_bytes)

theorem onSetHistoryRequest_cursor_witness:
  "requestedEntry ''ARQAAAAAAAA='' = 0 \<and> firstEntry (emptyStore (Num 0)) = 0 \<and>
   currentEntry (onSetHistoryRequest ''ARQAAAAAAAA='' (emptyStore (Num 0))) =
     firstEntry (emptyStore (Num 0)) + 1 \<and>
   requestedEntry ''ARQCAAAAAAA='' \<noteq> 0 \<and>
   currentEntry (onSetHistoryRequest ''ARQCAAAAAAA='' (emptyStore (Num 0))) = 2 \<and>
   fromBase64 ''ARTBDwAAAAA='' = [1, 20, 193, 15, 0, 0, 0, 0] \<and>
   requestedEntry ''ARTBDwAAAAA='' =
     sint (word_of_int (int 0 * 16777216 + int 0 * 65536 + int 15 * 256 + int 193) :: 32 word) \<and>
   currentEntry (onSetHistoryRequest ''ARTBDwAAAAA='' (emptyStore (Num 0))) = 4033"
  using onSetHistoryRequest_cursor [of "''ARQAAAAAAAA=''" "emptyStore (Num 0)"]
    onSetHistoryRequest_cursor [of "''ARQCAAAAAAA=''" "emptyStore (Num 0)"]
    onSetHistoryRequest_cursor [of "''ARTBDwAAAAA=''" "emptyStore (Num 0)" 1 20 193 15 0 0 "[0, 0]"]
  by (simp add: request_of_index_0 request_of_index_2 request_of_index_4033
      request_of_index_4033_bytes emptyStore_fields)

text \<open>
  C3 (as stated) fails on the store after 4032 appends, where \<open>firstEntry\<close> is 2: a
  request with index 0 sets the cursor to 1, not to 3.
\<close>

theorem onSetHistoryRequest_oldest_counterexample:
  "requestedEntry ''ARQAAAAAAAA='' = 0 \<and>
   currentEntry (onSetHistoryRequest ''ARQAAAAAAAA=''
       (addEntries contactFingerPrint (replicate 4032 (Num 0, Num 1000000000)) (emptyStore (Num 0)))) \<noteq>
   firstEntry (addEntries contactFingerPrint (replicate 4032 (Num 0, Num 1000000000))
       (emptyStore (Num 0))) + 1"
  by (simp add: request_of_index_0 wrapped_store onSetHistoryRequest_def)

section \<open>Properties of a transfer over a short store\<close>

lemma js_rem_small: "js_rem 1 4032 = 1" "js_rem 2 4032 = 2" "js_rem 3 4032 = 3"
  "js_rem 4 4032 = 4" "js_rem 5 4032 = 5" "js_rem 6 4032 = 6"
  by (simp_all add: js_rem_def)



lemma history_addEntry_filling:
  assumes "\<not> loading s" and "usedMemory s < memorySize"
  shows "history (addEntry fp now s) =
    (if refTime s = Num 0
     then (history s)(usedMemory s + 1 \<mapsto> RefTimeMarker now,
                      js_rem (usedMemory s + 2) memorySize \<mapsto> EntryCopy now (entryFields s))
     else (history s)(js_rem (usedMemory s + 1) memorySize \<mapsto> EntryCopy now (entryFields s)))"
  using assms by (simp add: addEntry_defs add.commute)








text \<open>The two chunks of the witness, written out for the Contact encoding.\<close>

lemma transfer_of_three_contact_entries:
  "snd (onGetEntries contactEntryStream
     (onSetHistoryRequest ''ARQAAAAAAAA=''
        (addEntries contactFingerPrint
           [(Num 0, Num 1000000000), (Num 1, Num 1000000600), (Num 0, Num 1000001200)]
           (emptyStore (Num 0))))) =
   Inr (hexStringToBase64
     ('' 1501000000 0100 0000 8180014b010000 0000 00 0000'' @
      '' 0b 02000000000000000100'' @ '' 0b 03000000580200000101'' @
      '' 0b 04000000b00400000100''))"
  by code_simp

lemma transfer_of_three_contact_entries_at_epoch:
  "snd (onGetEntries contactEntryStream
     (onSetHistoryRequest ''ARQAAAAAAAA=''
        (addEntries contactFingerPrint [(Num 0, Num epoch), (Num 1, Num epoch), (Num 0, Num epoch)]
           (emptyStore (Num 0))))) =
   Inr (hexStringToBase64
     ('' 1501000000 0100 0000 81000000000000 0000 00 0000'' @ '' 0b 02000000000000000100'' @
      '' 1503000000 0100 0000 81000000000000 0000 00 0000'' @ '' 0b 04000000000000000101'' @
      '' 1505000000 0100 0000 81000000000000 0000 00 0000'' @ '' 0b 06000000000000000100''))"
  by code_simp

section \<open>The load flag and the Contact handler, evaluated\<close>

lemma constructed_fields:
  "\<not> loading (constructed f)" "loadingUnderscore (constructed f)"
  "refTime (constructed f) = Num 0" "usedMemory (constructed f) = 0"
  "firstEntry (constructed f) = 0" "lastEntry (constructed f) = 0" "restarted (constructed f)"
  "entryFields (constructed f) = f" "retryTimers (constructed f) = []"
  by (simp_all add: constructed_def)

lemma retryTimers_addEntry: "\<not> loading s \<Longrightarrow> retryTimers (addEntry fp now s) = retryTimers s"
  by (simp add: addEntry_defs)

text \<open>
  C6, evaluated on the code. The constructed store has \<^verbatim>\<open>this._loading\<close> set, the load
  being outstanding; \<open>_addEntry\<close> tests \<^verbatim>\<open>this.loading\<close>, which nothing assigns, so a call
  at that moment is not deferred: it appends at once (two slots are in use after it, the
  entry is in slot 2) and no retry is left waiting. When the load then completes with a
  file, the history is the one of the file, and the entry appended meanwhile is gone.
\<close>

theorem addEntry_while_load_outstanding:
  "loadingUnderscore (constructed (Num 0)) \<and>
   usedMemory (constructed (Num 0)) = 0 \<and>
   usedMemory (addEntry contactFingerPrint (Num 1002500000) (constructed (Num 0))) = 2 \<and>
   history (addEntry contactFingerPrint (Num 1002500000) (constructed (Num 0))) 2 =
     Some (EntryCopy (Num 1002500000) (Num 0)) \<and>
   retryTimers (addEntry contactFingerPrint (Num 1002500000) (constructed (Num 0))) = [] \<and>
   history (loadCompleted (Some fullSnapshot)
              (addEntry contactFingerPrint (Num 1002500000) (constructed (Num 0)))) =
     snapHistory fullSnapshot \<and>
   snapHistory fullSnapshot 2 = Some (EntryCopy (Num 1000000000) (Num 0))"
  by (simp add: usedMemory_addEntry history_addEntry_filling retryTimers_addEntry
      constructed_fields memorySize_def js_rem_small loadCompleted_def fullSnapshot_def)

lemma statusValue_historyStatus [simp]:
  "statusValue fp (s\<lparr>historyStatus := h\<rparr>) = statusValue fp s"
  by (simp add: statusValue_def)

lemma historyStatus_addEntry:
  "\<not> loading s \<Longrightarrow> historyStatus (addEntry fp now s) =
     Some (hexStringToBase64 (statusValue fp (addEntry fp now s)))"
  by (simp add: addEntry_def Let_def)

lemma statusValue_fingerPrint:
  "take (length fp) (drop 24 (statusValue fp s)) = fp"
proof -
  have eight: "length (numToHex v 8) = 8" for v
    by (simp add: numToHex_def Let_def)
  show ?thesis
    by (simp add: statusValue_def eight)
qed

text \<open>
  What the body of the handler does when \<open>now\<close> is a Unix time \<open>T\<close>: the counter of
  openings grows by 1, the last activation is \<open>T\<close> minus the initial time, and an entry
  with status 1 and time \<open>T\<close> is appended, the status being published with the
  fingerprint \<open>01 0601\<close> (which \<open>statusValue_fingerPrint\<close> locates in the text).
\<close>

lemma contactDidSetAt_effects:
  assumes "initialTime (store c) = Some (Num T0)" and "\<not> loading (store c)"
    and "timesOpened c = Num k"
  shows "timesOpened (contactDidSetAt (Num T) (Num 1) c) = Num (k + 1) \<and>
         lastActivation (contactDidSetAt (Num T) (Num 1) c) = Num (T - T0) \<and>
         history (store (contactDidSetAt (Num T) (Num 1) c))
           (js_rem (lastEntry (store (contactDidSetAt (Num T) (Num 1) c))) memorySize) =
           Some (EntryCopy (Num T) (Num 1)) \<and>
         historyStatus (store (contactDidSetAt (Num T) (Num 1) c)) =
           Some (hexStringToBase64
                   (statusValue ''01 0601'' (store (contactDidSetAt (Num T) (Num 1) c))))"
  using assms
  by (simp add: contactDidSetAt_def Let_def js_add_def js_sub_def history_addEntry_entry
      historyStatus_addEntry contactFingerPrint_def)

text \<open>
  C7, evaluated on the code. The handler takes \<open>now\<close> from \<^verbatim>\<open>moment.unix()\<close>, which is not
  the Unix time of the moment (that is \<^verbatim>\<open>moment().unix()\<close>) but an invalid Moment of numeric
  value \<open>NaN\<close>. On a delegate whose initial time is set, a change of the contact to 1
  raises the counter of openings from 5 to 6, but the last activation becomes \<open>NaN\<close> and
  the appended entry has the time \<open>NaN\<close>; with the Unix time 1000000600 for \<open>now\<close> the
  same body gives the last activation 600 and an entry of that time.
\<close>

theorem contactDidSet_without_clock:
  "initialTime (store contactAfterHeartbeat) = Some (Num 1000000000) \<and>
   moment_unix None = NaN \<and>
   timesOpened (contactDidSet (Num 1) contactAfterHeartbeat) = Num 6 \<and>
   lastActivation (contactDidSet (Num 1) contactAfterHeartbeat) = NaN \<and>
   history (store (contactDidSet (Num 1) contactAfterHeartbeat)) 3 = Some (EntryCopy NaN (Num 1)) \<and>
   lastActivation (contactDidSetAt (Num 1000000600) (Num 1) contactAfterHeartbeat) = Num 600 \<and>
   history (store (contactDidSetAt (Num 1000000600) (Num 1) contactAfterHeartbeat)) 3 =
     Some (EntryCopy (Num 1000000600) (Num 1))"
  by (simp add: contactAfterHeartbeat_def contactConstructed_def contactDidSet_def
      contactDidSetAt_def moment_unix_def Let_def
      js_add_def js_sub_def initialTime_addEntry history_addEntry_filling usedMemory_addEntry
      refTime_addEntry loading_addEntry emptyStore_fields memorySize_def js_rem_small epoch_def)

end
